theory Spec2Isabelle
  imports Complex_Main "HOL-Library.Word" "HOL-Library.Sublist"
    "HOL-Library.List_Lexorder" "HOL-Library.Char_ord"
begin

section \<open>JavaScript string primitives used by the forensic code\<close>

text \<open>
  A \<open>Uint8Array\<close> is a list of 8-bit words. JavaScript strings are modelled as
  \<open>string\<close>; every string the modelled code builds or compares is ASCII (hex digits,
  spaces, dots, printable bytes), so one \<open>char\<close> is one UTF-16 code unit.
\<close>

type_synonym byte = "8 word"

definition hexDigit :: "nat \<Rightarrow> char" where
  "hexDigit d = ''0123456789abcdef'' ! d"

text \<open>\<open>Number.prototype.toString(16)\<close> on a non-negative integer.\<close>

fun toString16 :: "nat \<Rightarrow> string" where
  "toString16 n =
     (if n < 16 then [hexDigit n] else toString16 (n div 16) @ [hexDigit (n mod 16)])"

declare toString16.simps [simp del]

definition padStart :: "nat \<Rightarrow> char \<Rightarrow> string \<Rightarrow> string" where
  "padStart targetLength c s = replicate (targetLength - length s) c @ s"

definition padEnd :: "nat \<Rightarrow> char \<Rightarrow> string \<Rightarrow> string" where
  "padEnd targetLength c s = s @ replicate (targetLength - length s) c"

text \<open>\<open>Array.prototype.join(sep)\<close> on an array of strings.\<close>

fun join :: "string \<Rightarrow> string list \<Rightarrow> string" where
  "join sep [] = []"
| "join sep [x] = x"
| "join sep (x # y # ys) = x @ sep @ join sep (y # ys)"

text \<open>\<open>String.prototype.toUpperCase\<close>, on ASCII text.\<close>

definition toUpperChar :: "char \<Rightarrow> char" where
  "toUpperChar c =
     (let n = (of_char c :: nat) in if 97 \<le> n \<and> n \<le> 122 then char_of (n - 32) else c)"

definition toUpperCase :: "string \<Rightarrow> string" where
  "toUpperCase s = map toUpperChar s"

text \<open>
  \<open>String.prototype.indexOf(sig, fromIndex)\<close>: the least index at or after
  \<open>fromIndex\<close> where \<open>sig\<close> occurs, or \<open>-1\<close>. \<open>fromIndex\<close> is clamped to
  \<open>[0, length]\<close> as in JavaScript; \<open>indexFrom\<close> walks the remaining suffix.
\<close>

fun indexFrom :: "string \<Rightarrow> string \<Rightarrow> nat \<Rightarrow> int" where
  "indexFrom [] sig pos = (if sig = [] then int pos else - 1)"
| "indexFrom (c # cs) sig pos =
     (if prefix sig (c # cs) then int pos else indexFrom cs sig (Suc pos))"

definition indexOf :: "string \<Rightarrow> string \<Rightarrow> int \<Rightarrow> int" where
  "indexOf s sig fromIndex =
     (let start = min (nat fromIndex) (length s) in indexFrom (drop start s) sig start)"

text \<open>\<open>b.toString(16).padStart(2, '0')\<close> for one byte.\<close>

definition byteHex :: "byte \<Rightarrow> string" where
  "byteHex b = padStart 2 (CHR ''0'') (toString16 (unat b))"

section \<open>Embedded-object scan (\<open>detectEmbeddedFiles\<close>, exif-worker.ts)\<close>

record EmbeddedFile =
  type :: string
  offset :: rat

definition signatures :: "(string \<times> string) list" where
  "signatures = [(''ffd8ffe0'', ''JPEG''), (''89504e47'', ''PNG''),
                 (''504b0304'', ''ZIP''), (''25504446'', ''PDF'')]"

text \<open>
  The \<open>while (index !== -1 && index > 0)\<close> loop of one signature. \<open>index / 2\<close> is
  JavaScript number division, so the offset is a rational: an odd index gives a
  half-integer. The loop is a partial function: with an empty needle \<open>indexOf\<close> can
  return the same index for ever; \<open>scanLoop_returns\<close> shows it returns for every
  non-empty signature.
\<close>

partial_function (option) scanLoop ::
  "string \<Rightarrow> string \<Rightarrow> string \<Rightarrow> int \<Rightarrow> EmbeddedFile list \<Rightarrow> EmbeddedFile list option"
where
  "scanLoop hexString sig ty index embedded =
     (if index \<noteq> - 1 \<and> index > 0
      then scanLoop hexString sig ty (indexOf hexString sig (index + 1))
             (embedded @ [\<lparr>type = ty, offset = of_int index / 2\<rparr>])
      else Some embedded)"

declare scanLoop.simps [code]

text \<open>\<open>signatures.forEach(sigData => ...)\<close>, threading the \<open>embedded\<close> array.\<close>

fun forEachSignature ::
  "string \<Rightarrow> (string \<times> string) list \<Rightarrow> EmbeddedFile list \<Rightarrow> EmbeddedFile list option"
where
  "forEachSignature hexString [] embedded = Some embedded"
| "forEachSignature hexString ((sig, ty) # rest) embedded =
     (case scanLoop hexString sig ty (indexOf hexString sig 0) embedded of
        None \<Rightarrow> None
      | Some embedded' \<Rightarrow> forEachSignature hexString rest embedded')"

definition hexStringOf :: "byte list \<Rightarrow> string" where
  "hexStringOf data = concat (map byteHex (take (min (length data) 10000) data))"

definition detectEmbeddedFiles :: "byte list \<Rightarrow> EmbeddedFile list option" where
  "detectEmbeddedFiles data = forEachSignature (hexStringOf data) signatures []"

text \<open>A byte-aligned occurrence of the bytes \<open>pat\<close> at byte offset \<open>j\<close> of \<open>data\<close>.\<close>

definition occursAt :: "byte list \<Rightarrow> byte list \<Rightarrow> nat \<Rightarrow> bool" where
  "occursAt pat data j = (j + length pat \<le> length data \<and> take (length pat) (drop j data) = pat)"

definition zipMagic :: "byte list" where
  "zipMagic = [0x50, 0x4b, 0x03, 0x04]"

definition jpegMagic :: "byte list" where
  "jpegMagic = [0xff, 0xd8, 0xff, 0xe0]"

section \<open>Hex renderer (\<open>generateHexDump\<close>, exif-worker.ts)\<close>

record HexRow =
  offset :: string
  hex :: string
  ascii :: string

text \<open>\<open>(b >= 32 && b <= 126) ? String.fromCharCode(b) : '.'\<close>\<close>

definition asciiChar :: "byte \<Rightarrow> char" where
  "asciiChar b = (if unat b \<ge> 32 \<and> unat b \<le> 126 then char_of (unat b) else CHR ''.'')"

text \<open>
  One iteration of the loop body at index \<open>i\<close>: \<open>data.slice(i, i + 16)\<close> is
  \<open>take 16 (drop i data)\<close>.
\<close>

definition hexRow :: "byte list \<Rightarrow> nat \<Rightarrow> HexRow" where
  "hexRow data i =
     (let chunk = take 16 (drop i data)
      in \<lparr>HexRow.offset = toUpperCase (padStart 8 (CHR ''0'') (toString16 i)),
          hex = padEnd 47 (CHR '' '') (join '' '' (map byteHex chunk)),
          ascii = map asciiChar chunk\<rparr>)"

text \<open>\<open>for (let i = 0; i < data.length; i += 16) lines.push(...)\<close>\<close>

function hexDumpFrom :: "byte list \<Rightarrow> nat \<Rightarrow> HexRow list" where
  "hexDumpFrom data i =
     (if i < length data then hexRow data i # hexDumpFrom data (i + 16) else [])"
  by pat_completeness auto
termination
  by (relation "measure (\<lambda>(data, i). length data - i)") auto

declare hexDumpFrom.simps [simp del]

definition generateHexDump :: "byte list \<Rightarrow> HexRow list" where
  "generateHexDump data = hexDumpFrom data 0"

subsection \<open>The renderer that feeds the hex analyzer component (\<open>generateHexData\<close>)\<close>

text \<open>
  The analyzer component renders the first 4096 bytes itself; its octets are upper
  case (\<open>b.toString(16).padStart(2, '0').toUpperCase()\<close>).
\<close>

record HexData =
  lines :: "HexRow list"
  raw :: "byte list"
  totalBytes :: nat
  displayedBytes :: nat

definition hexDataRow :: "byte list \<Rightarrow> nat \<Rightarrow> HexRow" where
  "hexDataRow data i =
     (let chunk = take 16 (drop i data)
      in \<lparr>HexRow.offset = toUpperCase (padStart 8 (CHR ''0'') (toString16 i)),
          hex = padEnd 47 (CHR '' '') (join '' '' (map (\<lambda>b. toUpperCase (byteHex b)) chunk)),
          ascii = map asciiChar chunk\<rparr>)"

function hexDataFrom :: "byte list \<Rightarrow> nat \<Rightarrow> HexRow list" where
  "hexDataFrom data i =
     (if i < min (length data) 4096 then hexDataRow data i # hexDataFrom data (i + 16) else [])"
  by pat_completeness auto
termination
  by (relation "measure (\<lambda>(data, i). length data - i)") auto

declare hexDataFrom.simps [simp del]

definition generateHexData :: "byte list \<Rightarrow> HexData" where
  "generateHexData data =
     \<lparr>lines = hexDataFrom data 0, raw = data, totalBytes = length data,
      displayedBytes = min (length data) 4096\<rparr>"

section \<open>Pattern scanner (\<open>suspiciousPatterns\<close>, hex-analyzer.tsx)\<close>

datatype severity = low | medium | high | critical

record SuspiciousPattern =
  pattern :: string
  description :: string
  severity :: severity
  locations :: "nat list"

text \<open>
  The six regular expressions of \<open>suspiciousChecks\<close> have two shapes: a character
  followed by at least \<open>n\<close> more of the same (\<open>/00{20,}/\<close> is \<open>Run 0 20\<close>: the
  quantifier binds the second \<open>0\<close> only), and an alternation of literals.
  \<open>matchAt r s\<close> is the length of the match of \<open>r\<close> at the start of \<open>s\<close>: the
  quantifier is greedy, the alternation takes its first matching branch.
\<close>

datatype regex = Run char nat | Alt "string list"

fun matchAt :: "regex \<Rightarrow> string \<Rightarrow> nat option" where
  "matchAt (Run c n) s =
     (let k = length (takeWhile (\<lambda>x. x = c) s) in if k \<ge> n + 1 then Some k else None)"
| "matchAt (Alt alts) s =
     (case filter (\<lambda>a. prefix a s) alts of [] \<Rightarrow> None | a # _ \<Rightarrow> Some (length a))"

text \<open>
  \<open>String.prototype.matchAll\<close> with a global regular expression: the leftmost match
  at or after the current position, then on from its end (one further after an empty
  match). The result lists \<open>match.index\<close> of every match.
\<close>

fun matchAllFrom :: "regex \<Rightarrow> string \<Rightarrow> nat \<Rightarrow> nat list" where
  "matchAllFrom r [] pos = (case matchAt r [] of None \<Rightarrow> [] | Some _ \<Rightarrow> [pos])"
| "matchAllFrom r (c # cs) pos =
     (case matchAt r (c # cs) of
        None \<Rightarrow> matchAllFrom r cs (Suc pos)
      | Some len \<Rightarrow> pos # matchAllFrom r (drop (len - 1) cs) (pos + max len 1))"

definition matchAll :: "regex \<Rightarrow> string \<Rightarrow> nat list" where
  "matchAll r s = matchAllFrom r s 0"

text \<open>\<open>line.hex.replace(/\s/g, '')\<close>, on ASCII text.\<close>

definition isWhitespace :: "char \<Rightarrow> bool" where
  "isWhitespace c = (let n = (of_char c :: nat) in n = 32 \<or> (9 \<le> n \<and> n \<le> 13))"

definition stripWhitespace :: "string \<Rightarrow> string" where
  "stripWhitespace s = filter (\<lambda>c. \<not> isWhitespace c) s"

text \<open>Each check: the regular expression's source text, the expression, description, severity.\<close>

definition suspiciousChecks :: "(string \<times> regex \<times> string \<times> severity) list" where
  "suspiciousChecks =
    [(''00{20,}'', Run (CHR ''0'') 20,
        ''Long sequence of null bytes (possible padding or hidden data)'', medium),
     (''ff{10,}'', Run (CHR ''f'') 10,
        ''Long sequence of 0xFF bytes (possible corruption or manipulation)'', medium),
     (''(504b0304|504b0506)'', Alt [''504b0304'', ''504b0506''],
        ''ZIP file signature found (possible embedded archive)'', high),
     (''25504446'', Alt [''25504446''],
        ''PDF signature found (possible embedded document)'', high),
     (''(4d5a|5a4d)'', Alt [''4d5a'', ''5a4d''],
        ''Executable file signature (possible malware)'', critical),
     (''d0cf11e0'', Alt [''d0cf11e0''],
        ''Microsoft Office document signature'', medium)]"

definition fullHexOf :: "HexRow list \<Rightarrow> string" where
  "fullHexOf hexLines = concat (map (\<lambda>line. stripWhitespace (hex line)) hexLines)"

text \<open>\<open>locations\<close> holds \<open>match.index\<close>: an index into the hex-digit string.\<close>

definition suspiciousPatterns :: "HexRow list \<Rightarrow> SuspiciousPattern list" where
  "suspiciousPatterns hexLines =
     (let fullHex = fullHexOf hexLines
      in concat (map (\<lambda>(src, re, desc, sev).
            (let matches = matchAll re fullHex
             in if length matches > 0
                then [\<lparr>pattern = src, description = desc, severity = sev,
                       locations = matches\<rparr>]
                else [])) suspiciousChecks))"

text \<open>The buffer of the end-to-end scenario: 100 bytes, zero but for the ZIP magic at 40.\<close>

definition zipBuffer :: "byte list" where
  "zipBuffer = replicate 40 0 @ [0x50, 0x4b, 0x03, 0x04] @ replicate 56 0"

section \<open>Parsing hex text back to bytes (\<open>entropyAnalysis\<close>, hex-analyzer.tsx)\<close>

definition hexValue :: "char \<Rightarrow> nat option" where
  "hexValue c =
     (let n = (of_char c :: nat)
      in if 48 \<le> n \<and> n \<le> 57 then Some (n - 48)
         else if 97 \<le> n \<and> n \<le> 102 then Some (n - 87)
         else if 65 \<le> n \<and> n \<le> 70 then Some (n - 55)
         else None)"

text \<open>The values of the longest prefix of hexadecimal digits.\<close>

fun hexPrefixDigits :: "string \<Rightarrow> nat list" where
  "hexPrefixDigits [] = []"
| "hexPrefixDigits (c # cs) =
     (case hexValue c of None \<Rightarrow> [] | Some d \<Rightarrow> d # hexPrefixDigits cs)"

definition digitsValue :: "nat list \<Rightarrow> nat" where
  "digitsValue ds = foldl (\<lambda>acc d. 16 * acc + d) 0 ds"

text \<open>
  \<open>parseInt(s, 16)\<close> on text without leading white space: an optional sign, an
  optional \<open>0x\<close>/\<open>0X\<close>, then the longest prefix of hexadecimal digits; \<open>None\<close> is
  \<open>NaN\<close> (no digit).
\<close>

definition parseInt16 :: "string \<Rightarrow> int option" where
  "parseInt16 s =
     (let (neg, s1) =
            (case s of
               [] \<Rightarrow> (False, s)
             | c # r \<Rightarrow> if c = CHR ''-'' then (True, r)
                        else if c = CHR ''+'' then (False, r) else (False, s));
          s2 = (case s1 of
                  a # b # r \<Rightarrow>
                    if a = CHR ''0'' \<and> (b = CHR ''x'' \<or> b = CHR ''X'') then r else s1
                | _ \<Rightarrow> s1);
          ds = hexPrefixDigits s2
      in if ds = [] then None
         else Some ((if neg then - 1 else 1) * int (digitsValue ds)))"

text \<open>\<open>fullHex.substr(i, 2)\<close> for \<open>i = 0, 2, 4, ...\<close> below \<open>fullHex.length\<close>.\<close>

fun substrPairs :: "string \<Rightarrow> string list" where
  "substrPairs [] = []"
| "substrPairs [a] = [[a]]"
| "substrPairs (a # b # cs) = [a, b] # substrPairs cs"

definition hexToBytes :: "HexRow list \<Rightarrow> int option list" where
  "hexToBytes hexLines = map parseInt16 (substrPairs (fullHexOf hexLines))"


section \<open>Entropy (\<open>calculateEntropy\<close>, exif-worker.ts; \<open>entropyAnalysis\<close>, hex-analyzer.tsx)\<close>

text \<open>
  JavaScript numbers are real numbers here and \<open>Math.log2\<close> is the logarithm to
  base 2. \<open>frequencyOf\<close> is the array \<open>new Array(256).fill(0)\<close> after
  \<open>frequency[byte]++\<close> for every byte.
\<close>

definition frequencyOf :: "byte list \<Rightarrow> nat list" where
  "frequencyOf data =
     foldl (\<lambda>frequency byte. frequency[unat byte := frequency ! unat byte + 1])
       (replicate 256 0) data"

text \<open>
  \<open>for (const freq of frequency) if (freq > 0) { const p = freq / length;
  entropy -= p * Math.log2(p) }\<close>, starting from \<open>entropy = 0\<close>.
\<close>

definition entropyOf :: "nat list \<Rightarrow> nat \<Rightarrow> real" where
  "entropyOf frequency len =
     foldl (\<lambda>entropy freq.
              if freq > 0 then (let p = real freq / real len in entropy - p * log 2 p)
              else entropy)
       0 frequency"

definition calculateEntropy :: "byte list \<Rightarrow> real" where
  "calculateEntropy data = entropyOf (frequencyOf data) (length data)"

subsection \<open>The analysis of the hex analyzer component\<close>

text \<open>
  The component parses its bytes from the hex text. A pair that parses to \<open>NaN\<close> or
  to a negative number indexes no element of \<open>frequency\<close>: \<open>frequency[byte]++\<close>
  then leaves the 256 counters as they are.
\<close>

definition frequencyOfParsed :: "int option list \<Rightarrow> nat list" where
  "frequencyOfParsed bytes =
     foldl (\<lambda>frequency byte.
              case byte of
                None \<Rightarrow> frequency
              | Some v \<Rightarrow>
                  if 0 \<le> v \<and> v < 256
                  then frequency[nat v := frequency ! nat v + 1] else frequency)
       (replicate 256 0) bytes"

text \<open>
  The entropy of one chunk as the component computes it: the loop runs over the bytes
  of the chunk, not over the 256 counters.
\<close>

definition chunkEntropyOf :: "int option list \<Rightarrow> real" where
  "chunkEntropyOf chunk =
     (let chunkFreq = frequencyOfParsed chunk
      in foldl (\<lambda>chunkEntropy byte.
                  case byte of
                    None \<Rightarrow> chunkEntropy
                  | Some v \<Rightarrow>
                      if 0 \<le> v \<and> v < 256
                      then (let p = real (chunkFreq ! nat v) / real (length chunk)
                            in if p > 0 then chunkEntropy - p * log 2 p else chunkEntropy)
                      else chunkEntropy)
           0 chunk)"

text \<open>
  \<open>for (let i = 0; i < bytes.length; i += chunkSize)\<close> with \<open>chunkSize = 256\<close>. A
  suspicious area is kept as its offset and the chunk entropy its \<open>reason\<close> text
  shows.
\<close>

function suspiciousAreasFrom :: "int option list \<Rightarrow> nat \<Rightarrow> (nat \<times> real) list" where
  "suspiciousAreasFrom bytes i =
     (if i < length bytes
      then (let chunk = take 256 (drop i bytes);
                chunkEntropy = chunkEntropyOf chunk
            in (if chunkEntropy > 7.8 then [(i, chunkEntropy)] else []) @
               suspiciousAreasFrom bytes (i + 256))
      else [])"
  by pat_completeness auto
termination
  by (relation "measure (\<lambda>(bytes, i). length bytes - i)") auto

declare suspiciousAreasFrom.simps [simp del]

text \<open>
  The result of \<open>entropyAnalysis\<close>. \<open>entropy\<close> is the number that
  \<open>entropy.toFixed(4)\<close> renders.
\<close>

record EntropyAnalysis =
  entropy :: real
  assessment :: string
  mostCommonByte :: nat
  mostCommonFreq :: nat
  uniqueBytes :: nat
  suspiciousAreas :: "(nat \<times> real) list"

text \<open>\<open>Math.max(...frequency)\<close> and \<open>frequency.indexOf(m)\<close> on the 256 counters.\<close>

definition maxOf :: "nat list \<Rightarrow> nat" where
  "maxOf xs = foldl max 0 xs"

definition indexOfValue :: "nat list \<Rightarrow> nat \<Rightarrow> nat" where
  "indexOfValue xs m = length (takeWhile (\<lambda>x. x \<noteq> m) xs)"

definition entropyAnalysis :: "HexRow list \<Rightarrow> EntropyAnalysis" where
  "entropyAnalysis hexLines =
     (let bytes = hexToBytes hexLines;
          frequency = frequencyOfParsed bytes;
          e = entropyOf frequency (length bytes)
      in \<lparr>entropy = e,
          assessment =
            (if e > 7.5 then ''High (encrypted/compressed)''
             else if e > 6.5 then ''Medium (mixed content)''
             else if e > 4.0 then ''Low (structured data)''
             else ''Very Low (repetitive)''),
          mostCommonByte = indexOfValue frequency (maxOf frequency),
          mostCommonFreq = maxOf frequency,
          uniqueBytes = length (filter (\<lambda>f. f > 0) frequency),
          suspiciousAreas = suspiciousAreasFrom bytes 0\<rparr>)"

text \<open>A buffer holding each of the 256 byte values once.\<close>

definition allBytes :: "byte list" where
  "allBytes = map of_nat [0..<256]"

section \<open>Batch summarizer (\<open>generateBatchSummary\<close>, exif-worker.ts)\<close>

text \<open>
  The status strings \<open>'loading'\<close>, \<open>'success'\<close> and \<open>'error'\<close>, shared by the
  per-file results here and by the sources of the consolidation engine below.
\<close>

datatype status = Loading | Success | Error

text \<open>
  The fields of \<open>exifData\<close> the summary reads. \<open>None\<close> is \<open>undefined\<close>.
  Coordinates are numbers (exact rationals here), the other fields text, as the
  summary's own types say (\<open>earliest: string | null\<close>).
\<close>

record ExifData =
  latitude :: "rat option"
  longitude :: "rat option"
  Make :: "string option"
  Model :: "string option"
  DateTimeOriginal :: "string option"
  DateTime :: "string option"

record BatchResult =
  fileName :: string
  exifData :: "ExifData option"
  error :: "string option"
  status :: status















subsection \<open>Notions for the invariant of the summary loop\<close>





subsection \<open>Sample results\<close>




section \<open>Consolidation engine (multi-exif-reader.tsx)\<close>

text \<open>
  \<open>data: any\<close> is an object: its own enumerable properties as an association list
  in \<open>Object.keys\<close> order, a property value \<open>None\<close> being JavaScript's
  \<open>undefined\<close>. Field names are assumed not to name members of
  \<open>Object.prototype\<close>, so \<open>data[field]\<close> reads own properties only.
\<close>

type_synonym 'v jsobject = "(string \<times> 'v option) list"

record 'v ExifSource =
  name :: string
  library :: string
  data :: "'v jsobject"
  status :: status
  error :: "string option"
  coverage :: rat
  unique_fields :: nat

text \<open>A \<open>{ source, value }\<close> item of \<open>fieldData\<close> and \<open>conflicts\<close> is a pair.\<close>

type_synonym 'v fieldItem = "string \<times> 'v"

record 'v ConsolidatedField =
  "value" :: 'v
  sources :: "string list"
  confidence :: int
  conflicts :: "'v fieldItem list option"

text \<open>\<open>source.data[field]\<close>, with \<open>None\<close> for \<open>undefined\<close> (absent or stored).\<close>

definition getField :: "'v jsobject \<Rightarrow> string \<Rightarrow> 'v option" where
  "getField d field = (case map_of d field of Some (Some v) \<Rightarrow> Some v | _ \<Rightarrow> None)"

text \<open>A JavaScript \<open>Set\<close> in insertion order: \<open>add\<close> keeps the first occurrence.\<close>

definition setAdd :: "'a list \<Rightarrow> 'a \<Rightarrow> 'a list" where
  "setAdd xs x = (if x \<in> set xs then xs else xs @ [x])"

definition newSet :: "'a list \<Rightarrow> 'a list" where
  "newSet xs = foldl setAdd [] xs"

text \<open>\<open>Math.round\<close>: to the nearest integer, a tie towards \<open>+\<infinity>\<close>.\<close>

definition mathRound :: "rat \<Rightarrow> int" where
  "mathRound x = \<lfloor>x + 1 / 2\<rfloor>"

text \<open>
  \<open>JSON.stringify\<close> is a parameter of the model (\<open>stringify\<close>): the properties
  below hold for every serialisation function.
\<close>

definition calculateFieldConfidence :: "('v \<Rightarrow> 's) \<Rightarrow> 'v fieldItem list \<Rightarrow> int" where
  "calculateFieldConfidence stringify fieldData =
     (let uniqueValues = newSet (map (\<lambda>item. stringify (snd item)) fieldData);
          agreement = (rat_of_nat (length fieldData) - rat_of_nat (length uniqueValues) + 1)
                        / rat_of_nat (length fieldData)
      in mathRound (agreement * 100))"

definition allFields :: "(string \<times> 'v ExifSource) list \<Rightarrow> string list" where
  "allFields srcs =
     newSet (concat (map (\<lambda>source. if status source = Success then map fst (data source) else [])
                         (map snd srcs)))"

definition fieldDataOf :: "(string \<times> 'v ExifSource) list \<Rightarrow> string \<Rightarrow> 'v fieldItem list" where
  "fieldDataOf srcs field =
     concat (map (\<lambda>(sourceName, source).
                    if status source = Success
                    then (case getField (data source) field of
                            Some v \<Rightarrow> [(sourceName, v)] | None \<Rightarrow> [])
                    else []) srcs)"

definition consolidateField ::
  "('v \<Rightarrow> 's) \<Rightarrow> (string \<times> 'v ExifSource) list \<Rightarrow> string \<Rightarrow> 'v ConsolidatedField option" where
  "consolidateField stringify srcs field =
     (case fieldDataOf srcs field of
        [] \<Rightarrow> None
      | first # rest \<Rightarrow>
          (let primaryValue = snd first;
               conflicts = filter (\<lambda>item. stringify (snd item) \<noteq> stringify primaryValue) rest
           in Some \<lparr>value = primaryValue,
                    sources = map fst (first # rest),
                    confidence = calculateFieldConfidence stringify (first # rest),
                    conflicts = (if length conflicts > 0 then Some conflicts else None)\<rparr>))"

definition consolidateExifData ::
  "('v \<Rightarrow> 's) \<Rightarrow> (string \<times> 'v ExifSource) list \<Rightarrow> (string \<times> 'v ConsolidatedField) list" where
  "consolidateExifData stringify srcs =
     concat (map (\<lambda>field. case consolidateField stringify srcs field of
                              None \<Rightarrow> [] | Some entry \<Rightarrow> [(field, entry)])
                 (allFields srcs))"

definition calculateCoverage :: "'v jsobject \<Rightarrow> rat" where
  "calculateCoverage d = min ((rat_of_nat (length d) / 200) * 100) 100"

datatype thrown = ErrorObject string | OtherValue

datatype 'd outcome = Returned 'd | Threw thrown

definition errorMessage :: "thrown \<Rightarrow> string \<Rightarrow> string" where
  "errorMessage e fallback = (case e of ErrorObject message \<Rightarrow> message | OtherValue \<Rightarrow> fallback)"

definition loadingSource :: "string \<Rightarrow> string \<Rightarrow> 'v ExifSource" where
  "loadingSource nm lib =
     \<lparr>name = nm, library = lib, data = [], status = Loading, error = None,
      coverage = 0, unique_fields = 0\<rparr>"

definition runStrategy ::
  "string \<Rightarrow> string \<Rightarrow> string \<Rightarrow> 'v jsobject outcome \<Rightarrow> 'v ExifSource" where
  "runStrategy nm lib fallback result =
     (let source = loadingSource nm lib
      in case result of
           Returned d \<Rightarrow>
             source\<lparr>data := d, status := Success, coverage := calculateCoverage d,
                    unique_fields := length d\<rparr>
         | Threw e \<Rightarrow> source\<lparr>status := Error, error := Some (errorMessage e fallback)\<rparr>)"

definition orEmpty :: "'v jsobject option outcome \<Rightarrow> 'v jsobject outcome" where
  "orEmpty result =
     (case result of
        Returned None \<Rightarrow> Returned []
      | Returned (Some d) \<Rightarrow> Returned d
      | Threw e \<Rightarrow> Threw e)"

record 'v AnalysisState =
  exifSources :: "(string \<times> 'v ExifSource) list"
  consolidatedData :: "(string \<times> 'v ConsolidatedField) list"
  isAnalyzing :: bool

definition analyzeWithMultipleLibraries ::
  "('v \<Rightarrow> 's) \<Rightarrow> 'v jsobject option outcome \<Rightarrow> 'v jsobject outcome \<Rightarrow> 'v jsobject outcome \<Rightarrow>
   'v jsobject outcome \<Rightarrow> 'v AnalysisState" where
  "analyzeWithMultipleLibraries stringify exifrResult manualResult binaryResult xmpResult =
     (let srcs =
            [(''exifr'', runStrategy ''ExifR'' ''exifr'' ''Unknown error'' (orEmpty exifrResult)),
             (''manual'', runStrategy ''Manual Parser'' ''custom'' ''Manual parsing failed'' manualResult),
             (''binary'', runStrategy ''Binary Analysis'' ''custom'' ''Binary analysis failed'' binaryResult),
             (''xmp'', runStrategy ''XMP Parser'' ''custom'' ''XMP extraction failed'' xmpResult)]
      in \<lparr>exifSources = srcs, consolidatedData = consolidateExifData stringify srcs,
          isAnalyzing = False\<rparr>)"


text \<open>
  A source supplies a field when the test of the collecting loop holds for it:
  \<open>source.status === 'success' && source.data[field] !== undefined\<close>.
\<close>

definition supplies :: "'v ExifSource \<Rightarrow> string \<Rightarrow> bool" where
  "supplies source field = (status source = Success \<and> getField (data source) field \<noteq> None)"

text \<open>
  \<open>JSON.stringify\<close> on a string value (ASCII): the text in double quotes, with the
  quote, the backslash and the control characters escaped.
\<close>

definition quoteJSONChar :: "char \<Rightarrow> string" where
  "quoteJSONChar c =
     (let n = (of_char c :: nat)
      in if n = 0x22 then [CHR 0x5C, CHR 0x22]
         else if n = 0x5C then [CHR 0x5C, CHR 0x5C]
         else if n = 8 then [CHR 0x5C, CHR ''b'']
         else if n = 12 then [CHR 0x5C, CHR ''f'']
         else if n = 10 then [CHR 0x5C, CHR ''n'']
         else if n = 13 then [CHR 0x5C, CHR ''r'']
         else if n = 9 then [CHR 0x5C, CHR ''t'']
         else if n < 0x20 then [CHR 0x5C, CHR ''u''] @ padStart 4 (CHR ''0'') (toString16 n)
         else [c])"

definition stringifyString :: "string \<Rightarrow> string" where
  "stringifyString s = [CHR 0x22] @ concat (map quoteJSONChar s) @ [CHR 0x22]"

definition sampleState :: "string AnalysisState" where
  "sampleState =
     analyzeWithMultipleLibraries stringifyString
       (Returned (Some [(''Make'', Some ''Canon''), (''Model'', Some ''EOS R5'')]))
       (Returned [(''Make'', Some ''Canon'')])
       (Threw (ErrorObject ''Offset is outside the bounds of the DataView''))
       (Returned [(''Model'', Some ''EOS R6''), (''xmp_found'', None)])"



section \<open>Properties of the embedded-object scan\<close>

lemma indexFrom_range:
  assumes "sig \<noteq> []"
  shows "indexFrom s sig pos = - 1 \<or>
         (int pos \<le> indexFrom s sig pos \<and> indexFrom s sig pos < int pos + int (length s))"
  using assms
proof (induction s arbitrary: pos)
  case Nil
  then show ?case by simp
next
  case (Cons c cs)
  from Cons.IH [OF Cons.prems, of "Suc pos"] show ?case by auto
qed

lemma indexOf_range:
  assumes "sig \<noteq> []" and "0 \<le> fromIndex"
  shows "indexOf s sig fromIndex = - 1 \<or>
         (fromIndex \<le> indexOf s sig fromIndex \<and> indexOf s sig fromIndex < int (length s))"
proof -
  define start where "start = min (nat fromIndex) (length s)"
  have eq: "indexOf s sig fromIndex = indexFrom (drop start s) sig start"
    by (simp add: indexOf_def start_def Let_def)
  from indexFrom_range [OF assms(1), of "drop start s" start]
  show ?thesis
  proof
    assume "indexFrom (drop start s) sig start = - 1"
    then show ?thesis by (simp add: eq)
  next
    assume r: "int start \<le> indexFrom (drop start s) sig start \<and>
               indexFrom (drop start s) sig start < int start + int (length (drop start s))"
    then have lt: "indexFrom (drop start s) sig start < int (length s)"
      by (simp add: start_def)
    from r have "start < length s" by (simp add: start_def)
    then have "int start = fromIndex"
      using assms(2) by (simp add: start_def min_def split: if_splits)
    with r lt show ?thesis by (simp add: eq)
  qed
qed

text \<open>
  Termination of the scan: for a non-empty signature the loop returns, and it keeps
  the property "no hit at offset 0" of the hits collected so far.
\<close>

lemma scanLoop_returns:
  assumes "sig \<noteq> []"
  shows "\<exists>r. scanLoop hexString sig ty index embedded = Some r \<and>
             ((\<forall>h \<in> set embedded. 0 < EmbeddedFile.offset h) \<longrightarrow> (\<forall>h \<in> set r. 0 < EmbeddedFile.offset h))"
proof (induction "nat (int (length hexString) - index)" arbitrary: index embedded
       rule: less_induct)
  case less
  show ?case
  proof (cases "index \<noteq> - 1 \<and> index > 0")
    case False
    then show ?thesis by (subst scanLoop.simps) auto
  next
    case True
    define nxt where "nxt = indexOf hexString sig (index + 1)"
    define emb where "emb = embedded @ [\<lparr>type = ty, EmbeddedFile.offset = of_int index / 2\<rparr>]"
    have step: "scanLoop hexString sig ty index embedded = scanLoop hexString sig ty nxt emb"
      using True by (subst scanLoop.simps) (simp add: nxt_def emb_def)
    have keep: "(\<forall>h \<in> set embedded. 0 < EmbeddedFile.offset h) \<longrightarrow> (\<forall>h \<in> set emb. 0 < EmbeddedFile.offset h)"
      using True by (auto simp: emb_def)
    from indexOf_range [OF assms, of "index + 1" hexString] True
    have "nxt = - 1 \<or> (index + 1 \<le> nxt \<and> nxt < int (length hexString))"
      by (simp add: nxt_def)
    then show ?thesis
    proof
      assume "nxt = - 1"
      then have "scanLoop hexString sig ty nxt emb = Some emb"
        by (subst scanLoop.simps) simp
      with step keep show ?thesis by auto
    next
      assume b: "index + 1 \<le> nxt \<and> nxt < int (length hexString)"
      then have "nat (int (length hexString) - nxt) < nat (int (length hexString) - index)"
        by linarith
      from less [OF this, of emb] step keep show ?thesis by auto
    qed
  qed
qed

lemma forEachSignature_returns:
  assumes "\<forall>p \<in> set sigs. fst p \<noteq> []"
  shows "\<exists>r. forEachSignature hexString sigs embedded = Some r \<and>
             ((\<forall>h \<in> set embedded. 0 < EmbeddedFile.offset h) \<longrightarrow> (\<forall>h \<in> set r. 0 < EmbeddedFile.offset h))"
  using assms
proof (induction sigs arbitrary: embedded)
  case Nil
  then show ?case by simp
next
  case (Cons p sigs)
  obtain sig ty where p: "p = (sig, ty)" by (cases p)
  with Cons.prems have ne: "sig \<noteq> []" by simp
  from scanLoop_returns [OF ne, of hexString ty "indexOf hexString sig 0" embedded]
  obtain r1 where r1: "scanLoop hexString sig ty (indexOf hexString sig 0) embedded = Some r1"
    and k1: "(\<forall>h \<in> set embedded. 0 < EmbeddedFile.offset h) \<longrightarrow> (\<forall>h \<in> set r1. 0 < EmbeddedFile.offset h)"
    by blast
  from Cons.prems have "\<forall>p \<in> set sigs. fst p \<noteq> []" by simp
  from Cons.IH [OF this, of r1]
  obtain r where "forEachSignature hexString sigs r1 = Some r"
    and "(\<forall>h \<in> set r1. 0 < EmbeddedFile.offset h) \<longrightarrow> (\<forall>h \<in> set r. 0 < EmbeddedFile.offset h)"
    by blast
  with r1 k1 p show ?case by auto
qed

text \<open>
  The scan is total, and no hit it reports has offset 0 (every offset is positive).
\<close>

lemma detectEmbeddedFiles_no_offset_0:
  "\<exists>hits. detectEmbeddedFiles buf = Some hits \<and> (\<forall>h \<in> set hits. 0 < EmbeddedFile.offset h)"
proof -
  have "\<forall>p \<in> set signatures. fst p \<noteq> []"
    by (simp add: signatures_def)
  from forEachSignature_returns [OF this, of "hexStringOf buf" "[]"]
  show ?thesis by (auto simp: detectEmbeddedFiles_def)
qed

text \<open>
  C4. The claim: the scan never reports offset 0 and reports every match of each known
  signature at an offset \<open>> 0\<close> in the scanned prefix. The first half holds
  (\<open>detectEmbeddedFiles_no_offset_0\<close>). The second fails: a match at index 0 ends the
  loop of that signature (\<open>index > 0\<close> is part of the loop condition, commented
  "Skip file header"), so later matches of the same signature are never looked for.
  A JFIF file that embeds a second JFIF stream at byte offset 5 gets no hit at all.
\<close>

theorem C4_header_match_stops_scan:
  "occursAt jpegMagic [0xff, 0xd8, 0xff, 0xe0, 0x00, 0xff, 0xd8, 0xff, 0xe0] 5 \<and>
   detectEmbeddedFiles [0xff, 0xd8, 0xff, 0xe0, 0x00, 0xff, 0xd8, 0xff, 0xe0] = Some []"
  by code_simp

text \<open>
  C10. There is a buffer for which the scan reports a hit whose offset is not a whole
  number of bytes: in the bytes \<open>05 04 b0 30 40\<close> the hex text \<open>0504b03040\<close> contains
  \<open>504b0304\<close> at hex-digit index 1, so the scan reports a ZIP hit at offset 1/2,
  although the ZIP magic bytes occur at no byte offset of the buffer.
\<close>

theorem C10_fractional_offset:
  "\<exists>buf hits h. detectEmbeddedFiles buf = Some hits \<and> h \<in> set hits \<and>
     type h = ''ZIP'' \<and> EmbeddedFile.offset h \<notin> \<int> \<and> (\<forall>j. \<not> occursAt zipMagic buf j)"
proof -
  let ?buf = "[0x05, 0x04, 0xb0, 0x30, 0x40] :: byte list"
  let ?h = "\<lparr>type = ''ZIP'', EmbeddedFile.offset = 1 / 2\<rparr>"
  have run: "detectEmbeddedFiles ?buf = Some [?h]"
    by code_simp
  have frac: "(1 / 2 :: rat) \<notin> \<int>"
  proof
    assume "(1 / 2 :: rat) \<in> \<int>"
    then obtain z :: int where "(1 / 2 :: rat) = of_int z" by (auto elim: Ints_cases)
    then have "(1 :: rat) = of_int (2 * z)" by simp
    then have "(1 :: int) = 2 * z" by (simp only: of_int_eq_1_iff [symmetric] of_int_eq_iff)
    then show False by presburger
  qed
  have none: "\<not> occursAt zipMagic ?buf j" for j
  proof -
    have "j < 2 \<or> 2 \<le> j" by linarith
    then show ?thesis
    proof
      assume "j < 2"
      then have "j = 0 \<or> j = 1" by linarith
      then show ?thesis by (auto simp: occursAt_def zipMagic_def)
    next
      assume "2 \<le> j"
      then show ?thesis by (simp add: occursAt_def zipMagic_def)
    qed
  qed
  from run frac none show ?thesis
    by (intro exI [of _ ?buf] exI [of _ "[?h]"] exI [of _ ?h]) simp
qed

text \<open>
  C5. The end-to-end scenario on \<open>zipBuffer\<close>. The embedded-object scan reports
  \<open>{type: "ZIP", offset: 40}\<close> as claimed. The pattern scanner, fed the rows of
  \<open>generateHexDump\<close>, reports the high-severity ZIP pattern with location 80, not 40:
  \<open>locations\<close> is \<open>match.index\<close> in the hex-digit string, two digits per byte, and
  is not halved (the signature list of the same component and the embedded-object scan
  both halve their index). Fed the upper-case rows of \<open>generateHexData\<close>, as the
  analyzer component is, the lower-case expressions find no signature at all.
\<close>

theorem C5_zip_scenario:
  "length zipBuffer = 100 \<and> occursAt zipMagic zipBuffer 40 \<and>
   detectEmbeddedFiles zipBuffer = Some [\<lparr>type = ''ZIP'', EmbeddedFile.offset = 40\<rparr>] \<and>
   suspiciousPatterns (generateHexDump zipBuffer) =
     [\<lparr>pattern = ''00{20,}'',
       description = ''Long sequence of null bytes (possible padding or hidden data)'',
       severity = medium, locations = [0, 88]\<rparr>,
      \<lparr>pattern = ''(504b0304|504b0506)'',
       description = ''ZIP file signature found (possible embedded archive)'',
       severity = high, locations = [80]\<rparr>] \<and>
   map severity (suspiciousPatterns (lines (generateHexData zipBuffer))) = [medium]"
  by code_simp

section \<open>Properties of the hex renderer\<close>

subsection \<open>Hexadecimal digits\<close>

lemma hexDigit_cases:
  assumes "(d::nat) < 16"
  shows "d = 0 \<or> d = 1 \<or> d = 2 \<or> d = 3 \<or> d = 4 \<or> d = 5 \<or> d = 6 \<or> d = 7 \<or>
         d = 8 \<or> d = 9 \<or> d = 10 \<or> d = 11 \<or> d = 12 \<or> d = 13 \<or> d = 14 \<or> d = 15"
  using assms by arith

lemma hexValue_hexDigit:
  assumes "d < 16"
  shows "hexValue (hexDigit d) = Some d"
  using hexDigit_cases [OF assms] by (elim disjE; hypsubst; code_simp)


lemma hexDigit_not_space:
  assumes "d < 16"
  shows "\<not> isWhitespace (hexDigit d)"
  using hexDigit_cases [OF assms] by (elim disjE; hypsubst; code_simp)



lemma hexDigit_0: "hexDigit 0 = CHR ''0''"
  by (simp add: hexDigit_def)

lemma toString16_small: "n < 16 \<Longrightarrow> toString16 n = [hexDigit n]"
  by (subst toString16.simps) simp

lemma toString16_big: "16 \<le> n \<Longrightarrow> toString16 n = toString16 (n div 16) @ [hexDigit (n mod 16)]"
  by (subst toString16.simps) simp

lemma byteHex_eq: "byteHex b = [hexDigit (unat b div 16), hexDigit (unat b mod 16)]"
proof (cases "unat b < 16")
  case True
  then show ?thesis
    by (simp add: byteHex_def toString16_small padStart_def hexDigit_0)
next
  case False
  have "unat b < 256" using unsigned_less [of b] by simp
  then have "unat b div 16 < 16" by simp
  with False show ?thesis
    by (simp add: byteHex_def toString16_big toString16_small padStart_def)
qed

lemma unat_nibbles: "unat (b :: byte) div 16 < 16" "unat b mod 16 < 16"
proof -
  have "unat b < 256" using unsigned_less [of b] by simp
  then show "unat b div 16 < 16" by simp
  show "unat b mod 16 < 16" by simp
qed



lemma stripWhitespace_append:
  "stripWhitespace (a @ b) = stripWhitespace a @ stripWhitespace b"
  by (simp add: stripWhitespace_def)

lemma stripWhitespace_spaces: "stripWhitespace (replicate n (CHR '' '')) = []"
  by (simp add: stripWhitespace_def isWhitespace_def)

lemma stripWhitespace_byteHex: "stripWhitespace (byteHex b) = byteHex b"
  using hexDigit_not_space [OF unat_nibbles(1) [of b]] hexDigit_not_space [OF unat_nibbles(2) [of b]]
  by (simp add: byteHex_eq stripWhitespace_def)

lemma stripWhitespace_join:
  "stripWhitespace (join '' '' xs) = concat (map stripWhitespace xs)"
proof (induction xs)
  case Nil
  then show ?case by (simp add: stripWhitespace_def)
next
  case (Cons x xs)
  then show ?case
    by (cases xs) (simp_all add: stripWhitespace_append, simp add: stripWhitespace_def isWhitespace_def)
qed

lemma stripWhitespace_hexRow:
  "stripWhitespace (hex (hexRow buf i)) = concat (map byteHex (take 16 (drop i buf)))"
proof -
  have "concat (map stripWhitespace (map byteHex bs)) = concat (map byteHex bs)" for bs
    by (induction bs) (simp_all add: stripWhitespace_byteHex)
  then show ?thesis
    by (simp add: hexRow_def padEnd_def stripWhitespace_append stripWhitespace_spaces
        stripWhitespace_join Let_def comp_def)
qed

lemma fullHexOf_hexDumpFrom:
  "fullHexOf (hexDumpFrom buf i) = concat (map byteHex (drop i buf))"
proof (induction buf i rule: hexDumpFrom.induct)
  case (1 buf i)
  show ?case
  proof (cases "i < length buf")
    case True
    have split: "drop i buf = take 16 (drop i buf) @ drop (i + 16) buf"
      by (metis append_take_drop_id drop_drop add.commute)
    have "fullHexOf (hexDumpFrom buf i) =
          stripWhitespace (hex (hexRow buf i)) @ fullHexOf (hexDumpFrom buf (i + 16))"
      using True by (subst hexDumpFrom.simps) (simp add: fullHexOf_def)
    also have "\<dots> = concat (map byteHex (take 16 (drop i buf))) @
                    concat (map byteHex (drop (i + 16) buf))"
      using 1 [OF True] by (simp add: stripWhitespace_hexRow)
    also have "\<dots> = concat (map byteHex (drop i buf))"
      by (metis split map_append concat_append)
    finally show ?thesis .
  next
    case False
    then show ?thesis by (subst hexDumpFrom.simps) (simp add: fullHexOf_def)
  qed
qed

lemma substrPairs_byteHex: "substrPairs (concat (map byteHex bs)) = map byteHex bs"
  by (induction bs) (simp_all add: byteHex_eq)

lemma hexValue_signs:
  "hexValue (CHR ''-'') = None" "hexValue (CHR ''+'') = None"
  "hexValue (CHR ''x'') = None" "hexValue (CHR ''X'') = None"
  by code_simp+

lemma hexDigit_not_sign:
  assumes "d < 16"
  shows "hexDigit d \<noteq> CHR ''-''" "hexDigit d \<noteq> CHR ''+''"
        "hexDigit d \<noteq> CHR ''x''" "hexDigit d \<noteq> CHR ''X''"
  using hexValue_hexDigit [OF assms] hexValue_signs by auto

lemma parseInt16_byteHex: "parseInt16 (byteHex b) = Some (uint b)"
proof -
  let ?hi = "unat b div 16" and ?lo = "unat b mod 16"
  have v: "int (16 * ?hi + ?lo) = uint b" by simp
  show ?thesis
    using hexDigit_not_sign [OF unat_nibbles(1) [of b]] hexDigit_not_sign [OF unat_nibbles(2) [of b]]
      hexValue_hexDigit [OF unat_nibbles(1) [of b]] hexValue_hexDigit [OF unat_nibbles(2) [of b]] v
    by (simp add: byteHex_eq parseInt16_def digitsValue_def del: of_nat_add of_nat_mult)
qed

lemma hexToBytes_generateHexDump:
  "hexToBytes (generateHexDump buf) = map (\<lambda>b. Some (uint b)) buf"
  by (simp add: hexToBytes_def generateHexDump_def fullHexOf_hexDumpFrom substrPairs_byteHex
      parseInt16_byteHex)

subsection \<open>The rows of a dump\<close>



















section \<open>Properties of the consolidation engine\<close>






lemma fieldDataOf_filter:
  "fieldDataOf srcs field =
     map (\<lambda>p. (fst p, the (getField (data (snd p)) field)))
         (filter (\<lambda>p. supplies (snd p) field) srcs)"
  by (induction srcs) (auto simp: fieldDataOf_def supplies_def split: option.splits)







lemma consolidateField_Some:
  assumes "consolidateField stringify srcs field = Some e"
  shows "fieldDataOf srcs field \<noteq> []"
    and "value e = snd (hd (fieldDataOf srcs field))"
    and "sources e = map fst (fieldDataOf srcs field)"
    and "confidence e = calculateFieldConfidence stringify (fieldDataOf srcs field)"
    and "conflicts e =
           (let c = filter (\<lambda>item. stringify (snd item) \<noteq> stringify (value e))
                      (tl (fieldDataOf srcs field))
            in if c = [] then None else Some c)"
  using assms by (auto simp: consolidateField_def Let_def split: list.splits)


lemma consolidate_successful_only:
  "consolidateExifData stringify srcs =
   consolidateExifData stringify (filter (\<lambda>p. status (snd p) = Success) srcs)"
proof -
  have a: "allFields srcs = allFields (filter (\<lambda>p. status (snd p) = Success) srcs)"
    unfolding allFields_def by (rule arg_cong [of _ _ newSet]) (induction srcs, auto)
  have b: "fieldDataOf srcs field = fieldDataOf (filter (\<lambda>p. status (snd p) = Success) srcs) field"
    for field
    unfolding fieldDataOf_def by (induction srcs) auto
  show ?thesis
    by (simp add: consolidateExifData_def consolidateField_def a b [symmetric])
qed


lemma in_consolidated:
  assumes "(f, c) \<in> set (consolidateExifData stringify srcs)"
  shows "consolidateField stringify srcs f = Some c"
  using assms by (auto simp: consolidateExifData_def split: option.splits)

lemma contributing_sources_supply:
  assumes "(f, c) \<in> set (consolidateExifData stringify srcs)" and "n \<in> set (sources c)"
  shows "\<exists>s. (n, s) \<in> set srcs \<and> supplies s f"
proof -
  from assms(1) have "consolidateField stringify srcs f = Some c" by (rule in_consolidated)
  then have "sources c = map fst (fieldDataOf srcs f)" by (rule consolidateField_Some(3))
  with assms(2) show ?thesis
    by (auto simp: fieldDataOf_filter)
qed

lemma consolidate_nothing: "consolidateExifData stringify [] = []"
  by (simp add: consolidateExifData_def allFields_def newSet_def)

lemma all_less_4: "(\<forall>i<4. P i) \<longleftrightarrow> P (0::nat) \<and> P 1 \<and> P 2 \<and> P 3"
proof
  assume "\<forall>i<4. P i"
  then show "P 0 \<and> P 1 \<and> P 2 \<and> P 3" by simp
next
  assume p: "P 0 \<and> P 1 \<and> P 2 \<and> P 3"
  show "\<forall>i<4. P i"
  proof (intro allI impI)
    fix i :: nat
    assume "i < 4"
    then have "i = 0 \<or> i = 1 \<or> i = 2 \<or> i = 3" by arith
    with p show "P i" by blast
  qed
qed

lemma runStrategy_Threw:
  "status (runStrategy nm lib fb (Threw e)) = Error"
  "error (runStrategy nm lib fb (Threw e)) = Some (errorMessage e fb)"
  "data (runStrategy nm lib fb (Threw e)) = []"
  by (simp_all add: runStrategy_def loadingSource_def)

lemma runStrategy_Returned:
  "status (runStrategy nm lib fb (Returned d)) = Success"
  "error (runStrategy nm lib fb (Returned d)) = None"
  "data (runStrategy nm lib fb (Returned d)) = d"
  by (simp_all add: runStrategy_def loadingSource_def)

lemma failed_not_supplying: "status s = Error \<Longrightarrow> \<not> supplies s f"
  by (simp add: supplies_def)

text \<open>
  C3. Whatever the four strategies do, the analysis returns with all four sources
  recorded in the fixed order. A strategy that throws is recorded with status
  \<open>Error\<close>, its message and no data, and is named by no consolidated entry; one
  that returns is recorded with status \<open>Success\<close> and its data. The consolidated
  map is the consolidation of the successful sources only, and it is empty when all
  four strategies throw.
\<close>

theorem C3_failed_strategies_isolated:
  fixes stringify :: "'v \<Rightarrow> 's"
  shows
  "let st = analyzeWithMultipleLibraries stringify r1 r2 r3 r4;
       results = [orEmpty r1, r2, r3, r4];
       fallbacks = [''Unknown error'', ''Manual parsing failed'', ''Binary analysis failed'',
                    ''XMP extraction failed'']
   in map fst (exifSources st) = [''exifr'', ''manual'', ''binary'', ''xmp''] \<and>
      (\<forall>i<4. case results ! i of
                Threw e \<Rightarrow>
                  status (snd (exifSources st ! i)) = Error \<and>
                  error (snd (exifSources st ! i)) = Some (errorMessage e (fallbacks ! i)) \<and>
                  data (snd (exifSources st ! i)) = [] \<and>
                  (\<forall>entry \<in> set (consolidatedData st).
                     fst (exifSources st ! i) \<notin> set (sources (snd entry)))
              | Returned d \<Rightarrow>
                  status (snd (exifSources st ! i)) = Success \<and>
                  error (snd (exifSources st ! i)) = None \<and>
                  data (snd (exifSources st ! i)) = d) \<and>
      consolidatedData st =
        consolidateExifData stringify
          (filter (\<lambda>p. status (snd p) = Success) (exifSources st)) \<and>
      ((\<forall>i<4. \<exists>e. results ! i = Threw e) \<longrightarrow> consolidatedData st = [])"
proof -
  define s1 where "s1 = runStrategy ''ExifR'' ''exifr'' ''Unknown error'' (orEmpty r1)"
  define s2 where "s2 = runStrategy ''Manual Parser'' ''custom'' ''Manual parsing failed'' r2"
  define s3 where "s3 = runStrategy ''Binary Analysis'' ''custom'' ''Binary analysis failed'' r3"
  define s4 where "s4 = runStrategy ''XMP Parser'' ''custom'' ''XMP extraction failed'' r4"
  define srcs where "srcs = [(''exifr'', s1), (''manual'', s2), (''binary'', s3), (''xmp'', s4)]"
  define st where "st = analyzeWithMultipleLibraries stringify r1 r2 r3 r4"
  have ex: "exifSources st = srcs"
    and co: "consolidatedData st = consolidateExifData stringify srcs"
    by (simp_all add: st_def analyzeWithMultipleLibraries_def Let_def srcs_def
        s1_def s2_def s3_def s4_def)
  have names: "map fst (exifSources st) = [''exifr'', ''manual'', ''binary'', ''xmp'']"
    by (simp add: ex srcs_def)
  have absent: "n \<notin> set (sources (snd entry))"
    if "entry \<in> set (consolidatedData st)" and "(n, s) \<in> set srcs" and "status s = Error"
      and "\<forall>s'. (n, s') \<in> set srcs \<longrightarrow> s' = s" for n s entry
  proof
    assume "n \<in> set (sources (snd entry))"
    with that(1) contributing_sources_supply [of "fst entry" "snd entry" stringify srcs n]
    obtain s' where "(n, s') \<in> set srcs" and "supplies s' (fst entry)"
      by (auto simp: co)
    with that(3,4) failed_not_supplying show False by blast
  qed
  have per: "case r of
                Threw e \<Rightarrow>
                  status s = Error \<and> error s = Some (errorMessage e fb) \<and> data s = [] \<and>
                  (\<forall>entry \<in> set (consolidatedData st). n \<notin> set (sources (snd entry)))
              | Returned d \<Rightarrow> status s = Success \<and> error s = None \<and> data s = d"
    if "s = runStrategy nm lib fb r" and "(n, s) \<in> set srcs"
      and "\<forall>s'. (n, s') \<in> set srcs \<longrightarrow> s' = s" for r s n nm lib fb
  proof (cases r)
    case (Returned d)
    with that(1) show ?thesis by (simp add: runStrategy_Returned)
  next
    case (Threw e)
    with that(1) have "status s = Error" by (simp add: runStrategy_Threw)
    with absent that(2,3)
    have "\<forall>entry \<in> set (consolidatedData st). n \<notin> set (sources (snd entry))" by blast
    with Threw that(1) show ?thesis by (simp add: runStrategy_Threw)
  qed
  have p1: "case orEmpty r1 of
                Threw e \<Rightarrow>
                  status s1 = Error \<and> error s1 = Some (errorMessage e ''Unknown error'') \<and>
                  data s1 = [] \<and>
                  (\<forall>entry \<in> set (consolidatedData st). ''exifr'' \<notin> set (sources (snd entry)))
              | Returned d \<Rightarrow> status s1 = Success \<and> error s1 = None \<and> data s1 = d"
    by (rule per [OF s1_def]) (simp_all add: srcs_def)
  have p2: "case r2 of
                Threw e \<Rightarrow>
                  status s2 = Error \<and> error s2 = Some (errorMessage e ''Manual parsing failed'') \<and>
                  data s2 = [] \<and>
                  (\<forall>entry \<in> set (consolidatedData st). ''manual'' \<notin> set (sources (snd entry)))
              | Returned d \<Rightarrow> status s2 = Success \<and> error s2 = None \<and> data s2 = d"
    by (rule per [OF s2_def]) (simp_all add: srcs_def)
  have p3: "case r3 of
                Threw e \<Rightarrow>
                  status s3 = Error \<and> error s3 = Some (errorMessage e ''Binary analysis failed'') \<and>
                  data s3 = [] \<and>
                  (\<forall>entry \<in> set (consolidatedData st). ''binary'' \<notin> set (sources (snd entry)))
              | Returned d \<Rightarrow> status s3 = Success \<and> error s3 = None \<and> data s3 = d"
    by (rule per [OF s3_def]) (simp_all add: srcs_def)
  have p4: "case r4 of
                Threw e \<Rightarrow>
                  status s4 = Error \<and> error s4 = Some (errorMessage e ''XMP extraction failed'') \<and>
                  data s4 = [] \<and>
                  (\<forall>entry \<in> set (consolidatedData st). ''xmp'' \<notin> set (sources (snd entry)))
              | Returned d \<Rightarrow> status s4 = Success \<and> error s4 = None \<and> data s4 = d"
    by (rule per [OF s4_def]) (simp_all add: srcs_def)
  have only: "consolidatedData st =
        consolidateExifData stringify (filter (\<lambda>p. status (snd p) = Success) (exifSources st))"
    unfolding co ex by (rule consolidate_successful_only)
  have none: "consolidatedData st = []"
    if "\<exists>e. orEmpty r1 = Threw e" "\<exists>e. r2 = Threw e" "\<exists>e. r3 = Threw e" "\<exists>e. r4 = Threw e"
  proof -
    from that have "status s1 = Error" "status s2 = Error" "status s3 = Error" "status s4 = Error"
      by (auto simp: s1_def s2_def s3_def s4_def runStrategy_Threw)
    then have "filter (\<lambda>p. status (snd p) = Success) (exifSources st) = []"
      by (simp add: ex srcs_def)
    with only show ?thesis by (simp add: consolidate_nothing)
  qed
  have each: "\<forall>i<4. case [orEmpty r1, r2, r3, r4] ! i of
                Threw e \<Rightarrow>
                  status (snd (exifSources st ! i)) = Error \<and>
                  error (snd (exifSources st ! i)) =
                    Some (errorMessage e ([''Unknown error'', ''Manual parsing failed'',
                      ''Binary analysis failed'', ''XMP extraction failed''] ! i)) \<and>
                  data (snd (exifSources st ! i)) = [] \<and>
                  (\<forall>entry \<in> set (consolidatedData st).
                     fst (exifSources st ! i) \<notin> set (sources (snd entry)))
              | Returned d \<Rightarrow>
                  status (snd (exifSources st ! i)) = Success \<and>
                  error (snd (exifSources st ! i)) = None \<and>
                  data (snd (exifSources st ! i)) = d"
    unfolding all_less_4 using p1 p2 p3 p4 by (simp add: ex srcs_def split: outcome.splits)
  have allfail: "(\<forall>i<4. \<exists>e. [orEmpty r1, r2, r3, r4] ! i = Threw e) \<longrightarrow>
                 consolidatedData st = []"
    unfolding all_less_4 using none by simp
  from names each only allfail show ?thesis
    unfolding Let_def st_def [symmetric] by (intro conjI)
qed









text \<open>
  C3, witness: in \<open>sampleState\<close> the binary strategy throws; with four throwing
  strategies the consolidated map is empty.
\<close>

theorem C3_failed_strategies_witness:
  "status (snd (exifSources sampleState ! 2)) = Error \<and>
   error (snd (exifSources sampleState ! 2)) = Some ''Offset is outside the bounds of the DataView'' \<and>
   data (snd (exifSources sampleState ! 2)) = [] \<and>
   map fst (consolidatedData sampleState) = [''Make'', ''Model''] \<and>
   ''binary'' \<notin> set (sources (the (map_of (consolidatedData sampleState) ''Make''))) \<and>
   ''binary'' \<notin> set (sources (the (map_of (consolidatedData sampleState) ''Model''))) \<and>
   consolidatedData
     (analyzeWithMultipleLibraries stringifyString (Threw OtherValue) (Threw OtherValue)
        (Threw OtherValue) (Threw OtherValue)) = []"
proof -
  let ?r1 = "Returned (Some [(''Make'', Some ''Canon''), (''Model'', Some ''EOS R5'')])
               :: string jsobject option outcome"
  let ?r2 = "Returned [(''Make'', Some ''Canon'')] :: string jsobject outcome"
  let ?r3 = "Threw (ErrorObject ''Offset is outside the bounds of the DataView'')
               :: string jsobject outcome"
  let ?r4 = "Returned [(''Model'', Some ''EOS R6''), (''xmp_found'', None)] :: string jsobject outcome"
  have i: "(2::nat) < 4" by simp
  have r: "[orEmpty ?r1, ?r2, ?r3, ?r4] ! 2 = ?r3" by simp
  from C3_failed_strategies_isolated [of stringifyString ?r1 ?r2 ?r3 ?r4] i r
  have failed: "status (snd (exifSources sampleState ! 2)) = Error \<and>
     error (snd (exifSources sampleState ! 2)) = Some ''Offset is outside the bounds of the DataView'' \<and>
     data (snd (exifSources sampleState ! 2)) = [] \<and>
     (\<forall>entry \<in> set (consolidatedData sampleState).
        fst (exifSources sampleState ! 2) \<notin> set (sources (snd entry)))"
    unfolding Let_def sampleState_def [symmetric]
    by (auto simp: all_less_4 errorMessage_def)
  have keys: "map fst (consolidatedData sampleState) = [''Make'', ''Model'']"
    by code_simp
  have nm: "fst (exifSources sampleState ! 2) = ''binary''" by code_simp
  have mk: "(''Make'', the (map_of (consolidatedData sampleState) ''Make'')) \<in> set (consolidatedData sampleState)"
    and md: "(''Model'', the (map_of (consolidatedData sampleState) ''Model'')) \<in> set (consolidatedData sampleState)"
    by code_simp+
  from failed mk md nm
  have absent: "''binary'' \<notin> set (sources (the (map_of (consolidatedData sampleState) ''Make''))) \<and>
                ''binary'' \<notin> set (sources (the (map_of (consolidatedData sampleState) ''Model'')))"
    by fastforce
  let ?t = "Threw OtherValue :: string jsobject outcome"
  let ?t1 = "Threw OtherValue :: string jsobject option outcome"
  have "\<forall>i<4. \<exists>e. [orEmpty ?t1, ?t, ?t, ?t] ! i = Threw e"
    by (simp add: all_less_4 orEmpty_def)
  with C3_failed_strategies_isolated [of stringifyString ?t1 ?t ?t ?t]
  have "consolidatedData (analyzeWithMultipleLibraries stringifyString ?t1 ?t ?t ?t) = []"
    unfolding Let_def by blast
  with failed keys absent show ?thesis by simp
qed

section \<open>Properties of the batch summarizer\<close>





















section \<open>Properties of the entropy analyzer\<close>

lemma byte_index:
  assumes "v < 256"
  shows "(v = unat (b :: byte)) = (b = of_nat v)"
proof
  assume "v = unat b"
  then show "b = of_nat v" by simp
next
  assume "b = of_nat v"
  with assms show "v = unat b" by (simp add: unat_of_nat)
qed

lemma unat_byte_less: "unat (b :: byte) < 256"
  using unsigned_less [of b] by simp

lemma frequency_fold:
  assumes "length freq = 256"
  shows "length (foldl (\<lambda>frequency byte. frequency[unat byte := frequency ! unat byte + 1])
                   freq buf) = 256 \<and>
         (\<forall>v < 256.
            foldl (\<lambda>frequency (byte :: byte). frequency[unat byte := frequency ! unat byte + 1])
              freq buf ! v = freq ! v + count_list buf (of_nat v))"
  using assms
proof (induction buf arbitrary: freq)
  case Nil
  then show ?case by simp
next
  case (Cons b buf)
  let ?freq = "freq[unat b := freq ! unat b + 1]"
  have len: "length ?freq = 256" using Cons.prems by simp
  have upd: "?freq ! v = freq ! v + (if b = of_nat v then 1 else 0)" if "v < 256" for v
    using that Cons.prems unat_byte_less [of b] byte_index [OF that, of b]
    by (auto simp: nth_list_update)
  from Cons.IH [OF len] upd show ?case by (auto simp: add.assoc)
qed

lemma frequencyOf_counts:
  "frequencyOf buf = map (\<lambda>v. count_list buf (of_nat v)) [0..<256]"
proof (rule nth_equalityI)
  show "length (frequencyOf buf) = length (map (\<lambda>v. count_list buf (of_nat v)) [0..<256])"
    using frequency_fold [of "replicate 256 0" buf] by (simp add: frequencyOf_def)
next
  fix i
  assume "i < length (frequencyOf buf)"
  then have i: "i < 256"
    using frequency_fold [of "replicate 256 0" buf] by (simp add: frequencyOf_def)
  then show "frequencyOf buf ! i = map (\<lambda>v. count_list buf (of_nat v)) [0..<256] ! i"
    using frequency_fold [of "replicate 256 0" buf] by (simp add: frequencyOf_def)
qed

lemma frequencyOfParsed_bytes:
  "frequencyOfParsed (map (\<lambda>b. Some (uint b)) buf) = frequencyOf buf"
proof -
  have step: "foldl (\<lambda>frequency byte.
              case byte of
                None \<Rightarrow> frequency
              | Some v \<Rightarrow>
                  if 0 \<le> v \<and> v < 256
                  then frequency[nat v := frequency ! nat v + 1] else frequency)
            freq (map (\<lambda>b. Some (uint b)) buf) =
        foldl (\<lambda>frequency (byte :: byte). frequency[unat byte := frequency ! unat byte + 1])
            freq buf" for freq
  proof (induction buf arbitrary: freq)
    case Nil
    then show ?case by simp
  next
    case (Cons b buf)
    have lt: "uint b < 256" using unsigned_less [of b, where ?'a = int] by simp
    have n: "nat (uint b) = unat b" by simp
    show ?case using Cons lt by (simp add: n)
  qed
  show ?thesis by (simp add: frequencyOfParsed_def frequencyOf_def step)
qed

lemma entropyOf_trivial:
  assumes "\<forall>f \<in> set freqs. f = 0 \<or> f = len"
  shows "foldl (\<lambda>entropy freq.
              if freq > 0 then (let p = real freq / real len in entropy - p * log 2 p)
              else entropy) e freqs = e"
  using assms by (induction freqs arbitrary: e) auto

lemma log2_256: "log 2 (1 / 256) = - 8"
proof -
  have "log 2 (2 ^ 8) = real 8" by (rule log_pow_cancel) simp_all
  then have "log 2 256 = 8" by simp
  then show ?thesis by (simp add: log_recip)
qed

lemma entropyOf_uniform:
  assumes "0 < m"
  shows "foldl (\<lambda>entropy freq.
              if freq > 0 then (let p = real freq / real (256 * m) in entropy - p * log 2 p)
              else entropy) e (replicate n m) = e + real n / 32"
proof (induction n arbitrary: e)
  case 0
  then show ?case by simp
next
  case (Suc n)
  have p: "real m / real (256 * m) = 1 / 256" using assms by simp
  show ?case using assms by (simp add: Suc p log2_256 Let_def)
qed

lemma count_identical:
  assumes "\<forall>b \<in> set buf. b = c"
  shows "count_list buf y = (if y = c then length buf else 0)"
  using assms by (induction buf) auto

lemma length_by_counts:
  fixes buf :: "byte list"
  assumes "\<forall>v. count_list buf v = m"
  shows "length buf = 256 * m"
proof -
  have "sum (count_list buf) UNIV = length buf"
    by (rule sum_count_set) simp_all
  moreover have "sum (count_list buf) UNIV = card (UNIV :: byte set) * m"
    using assms by simp
  moreover have "card (UNIV :: byte set) = 256" by (simp add: card_word)
  ultimately show ?thesis by simp
qed

lemma calculateEntropy_identical:
  assumes "\<forall>b \<in> set buf. b = c"
  shows "calculateEntropy buf = 0"
proof -
  have "\<forall>f \<in> set (frequencyOf buf). f = 0 \<or> f = length buf"
    by (auto simp: frequencyOf_counts count_identical [OF assms])
  then show ?thesis
    unfolding calculateEntropy_def entropyOf_def by (rule entropyOf_trivial)
qed

lemma calculateEntropy_uniform:
  fixes buf :: "byte list"
  assumes "0 < m" and "\<forall>v. count_list buf v = m"
  shows "calculateEntropy buf = 8"
proof -
  have f: "frequencyOf buf = replicate 256 m"
    using assms(2) by (simp add: frequencyOf_counts map_replicate_const)
  have l: "length buf = 256 * m" by (rule length_by_counts [OF assms(2)])
  show ?thesis
    unfolding calculateEntropy_def entropyOf_def f l
    using entropyOf_uniform [OF assms(1), of 0 256] by simp
qed

lemma entropyAnalysis_rendered:
  "entropy (entropyAnalysis (generateHexDump buf)) = calculateEntropy buf"
  by (simp add: entropyAnalysis_def Let_def hexToBytes_generateHexDump frequencyOfParsed_bytes
      calculateEntropy_def)

lemma generateHexDump_empty: "generateHexDump [] = []"
  by (simp add: generateHexDump_def hexDumpFrom.simps)

lemma entropyAnalysis_empty:
  "entropy (entropyAnalysis []) = 0" "suspiciousAreas (entropyAnalysis []) = []"
proof -
  have b: "hexToBytes [] = []" by (simp add: hexToBytes_def fullHexOf_def)
  have "entropyOf (frequencyOfParsed []) 0 = 0"
    unfolding entropyOf_def by (rule entropyOf_trivial) (simp add: frequencyOfParsed_def)
  then show "entropy (entropyAnalysis []) = 0"
    by (simp add: entropyAnalysis_def Let_def b)
  show "suspiciousAreas (entropyAnalysis []) = []"
    by (simp add: entropyAnalysis_def Let_def b suspiciousAreasFrom.simps)
qed

text \<open>
  C7. In real arithmetic: \<open>calculateEntropy\<close> returns 0 for every buffer whose
  bytes are all the same, and 8 for every buffer in which each of the 256 byte values
  occurs the same positive number of times. The overall entropy of the component's
  \<open>entropyAnalysis\<close> on the rendered rows of a buffer is \<open>calculateEntropy\<close> of the
  buffer, so both hold for it too. On the empty buffer the entropy is 0, no rows are
  rendered, and the analysis has entropy 0 and no chunk entry.
\<close>

theorem C7_entropy:
  fixes buf :: "byte list"
  shows
  "((\<forall>b \<in> set buf. b = c) \<longrightarrow> calculateEntropy buf = 0) \<and>
   (0 < m \<and> (\<forall>v. count_list buf v = m) \<longrightarrow> calculateEntropy buf = 8) \<and>
   entropy (entropyAnalysis (generateHexDump buf)) = calculateEntropy buf \<and>
   calculateEntropy [] = 0 \<and>
   generateHexDump [] = [] \<and>
   entropy (entropyAnalysis []) = 0 \<and>
   suspiciousAreas (entropyAnalysis []) = []"
  using calculateEntropy_identical [of buf c] calculateEntropy_uniform [of m buf]
    entropyAnalysis_rendered [of buf] calculateEntropy_identical [of "[]" 0]
    generateHexDump_empty entropyAnalysis_empty
  by (intro conjI impI) simp_all

lemma distinct_count:
  "distinct xs \<Longrightarrow> count_list xs x = (if x \<in> set xs then 1 else 0)"
  by (induction xs) auto

lemma allBytes_counts: "count_list allBytes v = 1"
proof -
  have inj: "inj_on (of_nat :: nat \<Rightarrow> byte) (set [0..<256])"
  proof (rule inj_onI)
    fix x y :: nat
    assume "x \<in> set [0..<256]" "y \<in> set [0..<256]" and eq: "(of_nat x :: byte) = of_nat y"
    then have "x < 256" "y < 256" by (simp_all only: set_upt atLeastLessThan_iff)
    then have "unat (of_nat x :: byte) = x" "unat (of_nat y :: byte) = y"
      by (simp_all add: unat_of_nat)
    with eq show "x = y" by metis
  qed
  have d: "distinct allBytes"
    unfolding allBytes_def by (simp only: distinct_map distinct_upt inj)
  have "v = of_nat (unat v)" by simp
  moreover have "unat v \<in> set [0..<256]"
    using unat_byte_less [of v] by (simp only: set_upt atLeastLessThan_iff) simp
  ultimately have "v \<in> set allBytes" unfolding allBytes_def by (metis imageI set_map)
  with d show ?thesis by (simp add: distinct_count)
qed

text \<open>
  C7, witness: five bytes \<open>0x41\<close>, and \<open>allBytes\<close>, which holds every byte value
  once.
\<close>

theorem C7_entropy_witness:
  "calculateEntropy (replicate 5 0x41) = 0 \<and> calculateEntropy allBytes = 8 \<and>
   entropy (entropyAnalysis (generateHexDump allBytes)) = 8"
proof -
  have same: "\<forall>b \<in> set (replicate 5 (0x41 :: byte)). b = 0x41" by simp
  have uni: "(0::nat) < 1 \<and> (\<forall>v. count_list allBytes v = 1)" by (simp add: allBytes_counts)
  from C7_entropy [of "replicate 5 0x41" "0x41" 1] same
  have a: "calculateEntropy (replicate 5 0x41) = 0" by blast
  from C7_entropy [of allBytes 0 1] uni
  have "calculateEntropy allBytes = 8 \<and>
        entropy (entropyAnalysis (generateHexDump allBytes)) = calculateEntropy allBytes"
    by blast
  with a show ?thesis by simp
qed

end
